theory Spec2Isabelle
  imports Main "HOL-Library.Sublist"
begin

section \<open>Settings profile elements: the data model\<close>

text \<open>
  The embedding follows \<^verbatim>\<open>src/Parsers/Access/ASTSettingsProfileElement.cpp\<close>.
  The output stream \<^verbatim>\<open>settings.ostr\<close> is a byte string that the formatter only appends to;
  it is threaded through every call as a field of the settings record, which each function
  returns updated.

  The enum \<^verbatim>\<open>SettingConstraintWritability\<close> has the three data members and the end marker
  \<^verbatim>\<open>MAX\<close>. The members \<^verbatim>\<open>CONST\<close> and \<^verbatim>\<open>MAX\<close> carry a prime here, since both words are
  reserved in the term language.
\<close>

datatype SettingConstraintWritability = WRITABLE | CONST' | CHANGEABLE_IN_READONLY | MAX'

text \<open>
  \<^verbatim>\<open>IAST::FormatSettings\<close>, restricted to the two members the formatter reads:
  the sink and the highlighting switch.
\<close>

record FormatSettings =
  ostr :: string
  hilite :: bool

text \<open>
  One element. The type \<open>'f\<close> stands for the literal type \<^verbatim>\<open>Field\<close>. The code tests
  \<^verbatim>\<open>parent_profile.empty()\<close> and passes \<^verbatim>\<open>setting_name\<close> as a \<^verbatim>\<open>const String &\<close>, so both are
  plain strings; the three literals and the writability are tested with \<^verbatim>\<open>if (x)\<close> and read
  with \<^verbatim>\<open>*x\<close>, so they are optionals. The field \<^verbatim>\<open>value\<close> carries a prime.
\<close>

record 'f ASTSettingsProfileElement =
  parent_profile :: string
  setting_name :: string
  value' :: "'f option"
  min_value :: "'f option"
  max_value :: "'f option"
  writability :: "SettingConstraintWritability option"
  id_mode :: bool
  use_inherit_keyword :: bool

text \<open>
  The list node. The code holds its elements through shared pointers; the only mutation
  (\<^verbatim>\<open>setUseInheritKeyword\<close>) writes the same value to every element, so a list of values
  behaves as the list of pointers does.
\<close>

record 'f ASTSettingsProfileElements =
  elements :: "'f ASTSettingsProfileElement list"

text \<open>
  What the translation unit uses and does not define is taken as a parameter:
  the two highlight markers \<^verbatim>\<open>IAST::hilite_keyword\<close> and \<^verbatim>\<open>IAST::hilite_none\<close>, the quoting
  routines \<^verbatim>\<open>quoteString\<close> and \<^verbatim>\<open>backQuote\<close>, the text that \<^verbatim>\<open>formatSettingName\<close> writes for a
  name, the text that \<^verbatim>\<open>applyVisitor(FieldVisitorToString{}, v)\<close> returns for a literal, and
  the element's own \<^verbatim>\<open>empty()\<close> predicate, which the header declares.
\<close>

record 'f externals =
  hilite_keyword :: string
  hilite_none :: string
  quoteString :: "string \<Rightarrow> string"
  backQuote :: "string \<Rightarrow> string"
  formatSettingName :: "string \<Rightarrow> string"
  FieldVisitorToString :: "'f \<Rightarrow> string"
  element_empty :: "'f ASTSettingsProfileElement \<Rightarrow> bool"

section \<open>The formatter\<close>

text \<open>\<^verbatim>\<open>settings.ostr << str\<close>: append to the sink.\<close>

definition emit :: "string \<Rightarrow> FormatSettings \<Rightarrow> FormatSettings" where
  "emit str settings = settings\<lparr>ostr := ostr settings @ str\<rparr>"

text \<open>\<^verbatim>\<open>formatProfileNameOrID\<close> (lines 12 to 23).\<close>

definition formatProfileNameOrID ::
  "'f externals \<Rightarrow> string \<Rightarrow> bool \<Rightarrow> FormatSettings \<Rightarrow> FormatSettings" where
  "formatProfileNameOrID X str is_id settings =
     (if is_id then
        (let s1 = emit (if hilite settings then hilite_keyword X else '''') settings;
             s2 = emit ''ID'' s1;
             s3 = emit (if hilite settings then hilite_none X else '''') s2;
             s4 = emit ''('' s3;
             s5 = emit (quoteString X str) s4
         in emit '')'' s5)
      else emit (backQuote X str) settings)"

text \<open>\<^verbatim>\<open>ASTSettingsProfileElement::formatImpl\<close> (lines 26 to 74).\<close>

definition ASTSettingsProfileElement_formatImpl ::
  "'f externals \<Rightarrow> 'f ASTSettingsProfileElement \<Rightarrow> FormatSettings \<Rightarrow> FormatSettings" where
  "ASTSettingsProfileElement_formatImpl X e settings =
     (if parent_profile e \<noteq> [] then
        (let s1 = emit (if hilite settings then hilite_keyword X else '''') settings;
             s2 = emit (if use_inherit_keyword e then ''INHERIT'' else ''PROFILE'') s1;
             s3 = emit '' '' s2;
             s4 = emit (if hilite settings then hilite_none X else '''') s3
         in formatProfileNameOrID X (parent_profile e) (id_mode e) s4)
      else
        (let s1 = emit (formatSettingName X (setting_name e)) settings;
             s2 = (case value' e of
                     None \<Rightarrow> s1
                   | Some v \<Rightarrow> emit (FieldVisitorToString X v) (emit '' = '' s1));
             s3 = (case min_value e of
                     None \<Rightarrow> s2
                   | Some v \<Rightarrow>
                       emit (FieldVisitorToString X v)
                         (emit (if hilite settings then hilite_none X else '''')
                           (emit '' MIN ''
                             (emit (if hilite settings then hilite_keyword X else '''') s2))));
             s4 = (case max_value e of
                     None \<Rightarrow> s3
                   | Some v \<Rightarrow>
                       emit (FieldVisitorToString X v)
                         (emit (if hilite settings then hilite_none X else '''')
                           (emit '' MAX ''
                             (emit (if hilite settings then hilite_keyword X else '''') s3))))
         in (case writability e of
               None \<Rightarrow> s4
             | Some w \<Rightarrow>
                 (case w of
                    WRITABLE \<Rightarrow>
                      emit (if hilite settings then hilite_none X else '''')
                        (emit '' WRITABLE''
                          (emit (if hilite settings then hilite_keyword X else '''') s4))
                  | CONST' \<Rightarrow>
                      emit (if hilite settings then hilite_none X else '''')
                        (emit '' CONST''
                          (emit (if hilite settings then hilite_keyword X else '''') s4))
                  | CHANGEABLE_IN_READONLY \<Rightarrow>
                      emit (if hilite settings then hilite_none X else '''')
                        (emit '' CHANGEABLE_IN_READONLY''
                          (emit (if hilite settings then hilite_keyword X else '''') s4))
                  | MAX' \<Rightarrow> s4))))"

text \<open>
  Modelled from the spec: \<^verbatim>\<open>IAST::format\<close>, the entry point of the base class that the list
  calls on each element; it is not part of this translation unit. The list formatter
  "emits each element's ElementFormatter output", so the call runs the element's
  \<^verbatim>\<open>formatImpl\<close> on the same settings.
\<close>

definition IAST_format ::
  "'f externals \<Rightarrow> 'f ASTSettingsProfileElement \<Rightarrow> FormatSettings \<Rightarrow> FormatSettings" where
  "IAST_format X element settings = ASTSettingsProfileElement_formatImpl X element settings"

text \<open>
  \<^verbatim>\<open>ASTSettingsProfileElements::empty\<close> (lines 77 to 83): the loop returns \<^verbatim>\<open>false\<close> at the
  first element that is not empty, and \<^verbatim>\<open>true\<close> after the last one.
\<close>

fun empty_loop :: "'f externals \<Rightarrow> 'f ASTSettingsProfileElement list \<Rightarrow> bool" where
  "empty_loop X [] = True"
| "empty_loop X (element # rest) =
     (if \<not> element_empty X element then False else empty_loop X rest)"

definition ASTSettingsProfileElements_empty ::
  "'f externals \<Rightarrow> 'f ASTSettingsProfileElements \<Rightarrow> bool" where
  "ASTSettingsProfileElements_empty X this = empty_loop X (elements this)"

text \<open>
  \<^verbatim>\<open>ASTSettingsProfileElements::formatImpl\<close> (lines 86 to 103). The loop carries the flag
  \<^verbatim>\<open>need_comma\<close> and the sink.
\<close>

fun format_loop ::
  "'f externals \<Rightarrow> bool \<Rightarrow> 'f ASTSettingsProfileElement list \<Rightarrow> FormatSettings \<Rightarrow> FormatSettings" where
  "format_loop X need_comma [] settings = settings"
| "format_loop X need_comma (element # rest) settings =
     (let s1 = (if need_comma then emit '', '' settings else settings)
      in format_loop X True rest (IAST_format X element s1))"

definition ASTSettingsProfileElements_formatImpl ::
  "'f externals \<Rightarrow> 'f ASTSettingsProfileElements \<Rightarrow> FormatSettings \<Rightarrow> FormatSettings" where
  "ASTSettingsProfileElements_formatImpl X this settings =
     (if ASTSettingsProfileElements_empty X this then
        emit (if hilite settings then hilite_none X else '''')
          (emit ''NONE''
            (emit (if hilite settings then hilite_keyword X else '''') settings))
      else format_loop X False (elements this) settings)"

text \<open>
  \<^verbatim>\<open>ASTSettingsProfileElements::setUseInheritKeyword\<close> (lines 106 to 110): the method returns
  nothing and writes the flag of each element in turn; the model returns the list node after
  the writes.
\<close>

fun setUseInheritKeyword_loop ::
  "bool \<Rightarrow> 'f ASTSettingsProfileElement list \<Rightarrow> 'f ASTSettingsProfileElement list" where
  "setUseInheritKeyword_loop use_inherit_keyword' [] = []"
| "setUseInheritKeyword_loop use_inherit_keyword' (element # rest) =
     element\<lparr>use_inherit_keyword := use_inherit_keyword'\<rparr>
       # setUseInheritKeyword_loop use_inherit_keyword' rest"

definition ASTSettingsProfileElements_setUseInheritKeyword ::
  "bool \<Rightarrow> 'f ASTSettingsProfileElements \<Rightarrow> 'f ASTSettingsProfileElements" where
  "ASTSettingsProfileElements_setUseInheritKeyword use_inherit_keyword' this =
     this\<lparr>elements := setUseInheritKeyword_loop use_inherit_keyword' (elements this)\<rparr>"

section \<open>Notions used to state the properties\<close>

text \<open>
  The text a call writes is what it leaves in a sink that was empty before the call.
\<close>

definition name_or_id_text :: "'f externals \<Rightarrow> bool \<Rightarrow> string \<Rightarrow> bool \<Rightarrow> string" where
  "name_or_id_text X hl str is_id =
     ostr (formatProfileNameOrID X str is_id \<lparr>ostr = [], hilite = hl\<rparr>)"

definition element_text :: "'f externals \<Rightarrow> bool \<Rightarrow> 'f ASTSettingsProfileElement \<Rightarrow> string" where
  "element_text X hl e = ostr (ASTSettingsProfileElement_formatImpl X e \<lparr>ostr = [], hilite = hl\<rparr>)"

definition list_text :: "'f externals \<Rightarrow> bool \<Rightarrow> 'f ASTSettingsProfileElements \<Rightarrow> string" where
  "list_text X hl this = ostr (ASTSettingsProfileElements_formatImpl X this \<lparr>ostr = [], hilite = hl\<rparr>)"

text \<open>A keyword as it is written: between the two highlight markers when highlighting is on.\<close>

definition keyword_on :: "'f externals \<Rightarrow> bool \<Rightarrow> string" where
  "keyword_on X hl = (if hl then hilite_keyword X else '''')"

definition keyword_off :: "'f externals \<Rightarrow> bool \<Rightarrow> string" where
  "keyword_off X hl = (if hl then hilite_none X else '''')"

text \<open>
  The two forms of an element as the grammar words them. The reference form is the keyword
  \<^verbatim>\<open>INHERIT\<close> or \<^verbatim>\<open>PROFILE\<close>, a space, and the target.
\<close>

definition profile_reference_text ::
  "'f externals \<Rightarrow> bool \<Rightarrow> 'f ASTSettingsProfileElement \<Rightarrow> string" where
  "profile_reference_text X hl e =
     keyword_on X hl @ (if use_inherit_keyword e then ''INHERIT'' else ''PROFILE'') @ '' ''
       @ keyword_off X hl @ name_or_id_text X hl (parent_profile e) (id_mode e)"

text \<open>
  The keyword of a writability mode; the end marker of the enum has none, which the empty
  string stands for.
\<close>

fun writability_keyword :: "SettingConstraintWritability \<Rightarrow> string" where
  "writability_keyword WRITABLE = ''WRITABLE''"
| "writability_keyword CONST' = ''CONST''"
| "writability_keyword CHANGEABLE_IN_READONLY = ''CHANGEABLE_IN_READONLY''"
| "writability_keyword MAX' = []"

text \<open>
  The constraint form, clause by clause: the name, then the value, the lower bound, the upper
  bound and the writability, each only when present.
\<close>

definition value_clause :: "'f externals \<Rightarrow> 'f option \<Rightarrow> string" where
  "value_clause X v = (case v of None \<Rightarrow> [] | Some x \<Rightarrow> '' = '' @ FieldVisitorToString X x)"

definition bound_clause :: "'f externals \<Rightarrow> bool \<Rightarrow> string \<Rightarrow> 'f option \<Rightarrow> string" where
  "bound_clause X hl kw v =
     (case v of
        None \<Rightarrow> []
      | Some x \<Rightarrow> keyword_on X hl @ '' '' @ kw @ '' '' @ keyword_off X hl @ FieldVisitorToString X x)"

definition writability_clause ::
  "'f externals \<Rightarrow> bool \<Rightarrow> SettingConstraintWritability option \<Rightarrow> string" where
  "writability_clause X hl w =
     (case w of
        None \<Rightarrow> []
      | Some m \<Rightarrow>
          (if m = MAX' then []
           else keyword_on X hl @ '' '' @ writability_keyword m @ keyword_off X hl))"

definition setting_constraint_text ::
  "'f externals \<Rightarrow> bool \<Rightarrow> 'f ASTSettingsProfileElement \<Rightarrow> string" where
  "setting_constraint_text X hl e =
     formatSettingName X (setting_name e) @ value_clause X (value' e)
       @ bound_clause X hl ''MIN'' (min_value e) @ bound_clause X hl ''MAX'' (max_value e)
       @ writability_clause X hl (writability e)"

text \<open>Texts joined by a separator, with no separator before the first or after the last.\<close>

fun join_with :: "string \<Rightarrow> string list \<Rightarrow> string" where
  "join_with sep [] = []"
| "join_with sep [x] = x"
| "join_with sep (x # y # ys) = x @ sep @ join_with sep (y # ys)"

text \<open>
  The number of positions of a text at which a word occurs as a substring: the word is a
  prefix of what is left at that position.
\<close>

fun occurrences :: "string \<Rightarrow> string \<Rightarrow> nat" where
  "occurrences w [] = (if w = [] then 1 else 0)"
| "occurrences w (c # cs) = (if prefix w (c # cs) then 1 else 0) + occurrences w cs"

text \<open>
  Sample collaborators, used to evaluate the formatter on concrete elements: two visible
  strings as highlight markers, quoting that adds the quote characters and escapes nothing,
  setting names written as they are, literals that are already text, and an element that
  is empty when it has neither a parent profile nor a setting name.
\<close>

definition sample_externals :: "string externals" where
  "sample_externals =
     \<lparr>hilite_keyword = ''<b>'', hilite_none = ''</b>'',
      quoteString = (\<lambda>s. [CHR 0x27] @ s @ [CHR 0x27]),
      backQuote = (\<lambda>s. [CHR 0x60] @ s @ [CHR 0x60]),
      formatSettingName = (\<lambda>s. s),
      FieldVisitorToString = (\<lambda>v. v),
      element_empty = (\<lambda>e. parent_profile e = [] \<and> setting_name e = [])\<rparr>"

definition plain :: FormatSettings where
  "plain = \<lparr>ostr = [], hilite = False\<rparr>"

text \<open>
  A default-constructed element: empty strings, no literal, no writability, both flags off.
\<close>

definition blank_element :: "string ASTSettingsProfileElement" where
  "blank_element =
     \<lparr>parent_profile = [], setting_name = [], value' = None, min_value = None,
      max_value = None, writability = None, id_mode = False, use_inherit_keyword = False\<rparr>"

section \<open>General facts about the sink\<close>

lemma ostr_emit: "ostr (emit str settings) = ostr settings @ str"
  by (simp add: emit_def)

lemma hilite_emit: "hilite (emit str settings) = hilite settings"
  by (simp add: emit_def)

lemma ostr_formatProfileNameOrID:
  "ostr (formatProfileNameOrID X str is_id settings) =
     ostr settings @
       (if is_id then keyword_on X (hilite settings) @ ''ID'' @ keyword_off X (hilite settings)
                      @ ''('' @ quoteString X str @ '')''
        else backQuote X str)"
  by (simp add: formatProfileNameOrID_def Let_def ostr_emit hilite_emit keyword_on_def keyword_off_def)

lemma hilite_formatProfileNameOrID:
  "hilite (formatProfileNameOrID X str is_id settings) = hilite settings"
  by (simp add: formatProfileNameOrID_def Let_def hilite_emit)

lemma keyword_simps:
  "keyword_on X False = []" "keyword_off X False = []"
  "keyword_on X True = hilite_keyword X" "keyword_off X True = hilite_none X"
  by (simp_all add: keyword_on_def keyword_off_def)

lemma name_or_id_text_eq:
  "name_or_id_text X hl str is_id =
     (if is_id then keyword_on X hl @ ''ID'' @ keyword_off X hl @ ''('' @ quoteString X str @ '')''
      else backQuote X str)"
  by (simp add: name_or_id_text_def ostr_formatProfileNameOrID)

lemma ostr_formatProfileNameOrID_text:
  "ostr (formatProfileNameOrID X str is_id settings) =
     ostr settings @ name_or_id_text X (hilite settings) str is_id"
  by (simp add: name_or_id_text_eq ostr_formatProfileNameOrID)

lemma hilite_formatImpl:
  "hilite (ASTSettingsProfileElement_formatImpl X e settings) = hilite settings"
  by (simp add: ASTSettingsProfileElement_formatImpl_def Let_def hilite_emit
      hilite_formatProfileNameOrID
      split: option.splits SettingConstraintWritability.splits)

lemma ostr_formatImpl_reference:
  "parent_profile e \<noteq> [] \<Longrightarrow>
   ostr (ASTSettingsProfileElement_formatImpl X e settings) =
     ostr settings @ profile_reference_text X (hilite settings) e"
  by (simp add: ASTSettingsProfileElement_formatImpl_def Let_def ostr_emit hilite_emit
      ostr_formatProfileNameOrID_text profile_reference_text_def keyword_on_def keyword_off_def)

lemma ostr_formatImpl_constraint:
  "parent_profile e = [] \<Longrightarrow>
   ostr (ASTSettingsProfileElement_formatImpl X e settings) =
     ostr settings @ setting_constraint_text X (hilite settings) e"
  by (simp add: ASTSettingsProfileElement_formatImpl_def Let_def ostr_emit hilite_emit
      setting_constraint_text_def value_clause_def bound_clause_def writability_clause_def
      keyword_on_def keyword_off_def
      split: option.splits SettingConstraintWritability.splits)

lemma element_text_eq:
  "element_text X hl e =
     (if parent_profile e = [] then setting_constraint_text X hl e
      else profile_reference_text X hl e)"
  by (simp add: element_text_def ostr_formatImpl_reference ostr_formatImpl_constraint)

lemma ostr_formatImpl:
  "ostr (ASTSettingsProfileElement_formatImpl X e settings) =
     ostr settings @ element_text X (hilite settings) e"
  by (simp add: element_text_eq ostr_formatImpl_reference ostr_formatImpl_constraint)

lemma formatImpl_eq:
  "ASTSettingsProfileElement_formatImpl X e settings =
     settings\<lparr>ostr := ostr settings @ element_text X (hilite settings) e\<rparr>"
  by (rule FormatSettings.equality) (simp_all add: ostr_formatImpl hilite_formatImpl)

section \<open>The name-or-id formatter\<close>

text \<open>
  C6. For every string, \<^verbatim>\<open>formatProfileNameOrID\<close> with \<^verbatim>\<open>is_id = true\<close> appends the keyword
  \<^verbatim>\<open>ID\<close> (between the highlight markers when highlighting is on), an opening parenthesis,
  the string as \<^verbatim>\<open>quoteString\<close> renders it, and a closing parenthesis; with \<^verbatim>\<open>is_id = false\<close>
  it appends the string as \<^verbatim>\<open>backQuote\<close> renders it. The function is total: it has no
  failing branch for any content of the string, and it leaves the highlighting switch as
  it was.
\<close>

theorem C6_formatProfileNameOrID:
  "ostr (formatProfileNameOrID X s True settings) =
     ostr settings @ keyword_on X (hilite settings) @ ''ID'' @ keyword_off X (hilite settings)
       @ ''('' @ quoteString X s @ '')''
   \<and> ostr (formatProfileNameOrID X s False settings) = ostr settings @ backQuote X s
   \<and> hilite (formatProfileNameOrID X s is_id settings) = hilite settings"
  by (simp add: ostr_formatProfileNameOrID hilite_formatProfileNameOrID)

section \<open>One element\<close>

lemma formatImpl_reference_ignores:
  "parent_profile e \<noteq> [] \<Longrightarrow>
   ASTSettingsProfileElement_formatImpl X
     (e\<lparr>setting_name := n, value' := v, min_value := lo, max_value := hi, writability := w\<rparr>)
     settings = ASTSettingsProfileElement_formatImpl X e settings"
  by (simp add: ASTSettingsProfileElement_formatImpl_def)

lemma formatImpl_constraint_ignores:
  "parent_profile e = [] \<Longrightarrow>
   ASTSettingsProfileElement_formatImpl X (e\<lparr>id_mode := i, use_inherit_keyword := u\<rparr>) settings
     = ASTSettingsProfileElement_formatImpl X e settings"
  by (simp add: ASTSettingsProfileElement_formatImpl_def)

text \<open>
  C1. For every element whose \<^verbatim>\<open>parent_profile\<close> is not empty, \<^verbatim>\<open>formatImpl\<close> appends the keyword
  \<^verbatim>\<open>INHERIT\<close> when \<^verbatim>\<open>use_inherit_keyword\<close> is set and \<^verbatim>\<open>PROFILE\<close> otherwise, one space, and what
  \<^verbatim>\<open>formatProfileNameOrID\<close> writes for \<^verbatim>\<open>(parent_profile, id_mode)\<close>, and nothing more. When
  highlighting is on the keyword and its space stand between the two highlight markers.
  The fields \<^verbatim>\<open>setting_name\<close>, \<^verbatim>\<open>value\<close>, \<^verbatim>\<open>min_value\<close>, \<^verbatim>\<open>max_value\<close> and \<^verbatim>\<open>writability\<close> are not
  read: replacing them by any other values gives the same result.
\<close>

theorem C1_reference_form:
  "parent_profile e \<noteq> [] \<Longrightarrow>
   ostr (ASTSettingsProfileElement_formatImpl X e settings) =
     ostr settings @ keyword_on X (hilite settings)
       @ (if use_inherit_keyword e then ''INHERIT'' else ''PROFILE'') @ '' ''
       @ keyword_off X (hilite settings)
       @ name_or_id_text X (hilite settings) (parent_profile e) (id_mode e)
   \<and> ASTSettingsProfileElement_formatImpl X
       (e\<lparr>setting_name := n, value' := v, min_value := lo, max_value := hi, writability := w\<rparr>)
       settings = ASTSettingsProfileElement_formatImpl X e settings"
  by (simp add: ostr_formatImpl_reference profile_reference_text_def formatImpl_reference_ignores)

text \<open>
  The theorem at two reference elements: a named parent with a setting name and a writability
  set as well, and a parent given by id with highlighting on.
\<close>

theorem C1_reference_form_witness:
  "parent_profile (blank_element\<lparr>parent_profile := ''default'', setting_name := ''readonly'',
       writability := Some CONST'\<rparr>) \<noteq> []
   \<and> ostr (ASTSettingsProfileElement_formatImpl sample_externals
        (blank_element\<lparr>parent_profile := ''default'', setting_name := ''readonly'',
           writability := Some CONST'\<rparr>) plain) = ''PROFILE `default`''
   \<and> ostr (ASTSettingsProfileElement_formatImpl sample_externals
        (blank_element\<lparr>parent_profile := ''123'', id_mode := True, use_inherit_keyword := True\<rparr>)
        (plain\<lparr>hilite := True\<rparr>)) = ''<b>INHERIT </b><b>ID</b>('' @ [CHR 0x27] @ ''123'' @ [CHR 0x27] @ '')''"
proof -
  let ?e = "blank_element\<lparr>parent_profile := ''default'', setting_name := ''readonly'',
       writability := Some CONST'\<rparr>"
  let ?d = "blank_element\<lparr>parent_profile := ''123'', id_mode := True, use_inherit_keyword := True\<rparr>"
  have h: "parent_profile ?e \<noteq> []" by (simp add: blank_element_def)
  have g: "parent_profile ?d \<noteq> []" by (simp add: blank_element_def)
  show ?thesis
    using h C1_reference_form [OF h, of sample_externals plain]
      C1_reference_form [OF g, of sample_externals "plain\<lparr>hilite := True\<rparr>"]
    by (simp add: name_or_id_text_eq keyword_simps sample_externals_def plain_def blank_element_def)
qed

text \<open>
  C2. For every element whose \<^verbatim>\<open>parent_profile\<close> is empty, \<^verbatim>\<open>formatImpl\<close> appends the setting
  name as \<^verbatim>\<open>formatSettingName\<close> writes it and then, in this order and each only when the
  field is present: \<^verbatim>\<open>" = "\<close> and the value, \<^verbatim>\<open>" MIN "\<close> and the lower bound, \<^verbatim>\<open>" MAX "\<close> and the
  upper bound, one space and the keyword of the writability. An absent field adds nothing,
  and so does the end marker of the enum, which has no keyword. The output is this one
  concatenation, so no other order of the clauses occurs. When highlighting is on the
  keywords \<^verbatim>\<open>MIN\<close>, \<^verbatim>\<open>MAX\<close> and the writability keyword stand between the highlight markers,
  together with their spaces.
\<close>

theorem C2_constraint_clause_order:
  "parent_profile e = [] \<Longrightarrow>
   ostr (ASTSettingsProfileElement_formatImpl X e settings) =
     ostr settings @ formatSettingName X (setting_name e)
       @ (case value' e of None \<Rightarrow> [] | Some v \<Rightarrow> '' = '' @ FieldVisitorToString X v)
       @ (case min_value e of
            None \<Rightarrow> []
          | Some v \<Rightarrow> keyword_on X (hilite settings) @ '' MIN '' @ keyword_off X (hilite settings)
                       @ FieldVisitorToString X v)
       @ (case max_value e of
            None \<Rightarrow> []
          | Some v \<Rightarrow> keyword_on X (hilite settings) @ '' MAX '' @ keyword_off X (hilite settings)
                       @ FieldVisitorToString X v)
       @ (case writability e of
            None \<Rightarrow> []
          | Some w \<Rightarrow>
              (if w = MAX' then []
               else keyword_on X (hilite settings) @ '' '' @ writability_keyword w
                      @ keyword_off X (hilite settings)))"
  by (simp add: ostr_formatImpl_constraint setting_constraint_text_def value_clause_def
      bound_clause_def writability_clause_def split: option.splits)

text \<open>
  The theorem at two constraint elements: bounds with a writability, and a value alone.
\<close>

theorem C2_constraint_clause_order_witness:
  "parent_profile (blank_element\<lparr>setting_name := ''readonly'', min_value := Some ''0'',
       max_value := Some ''1'', writability := Some CONST'\<rparr>) = []
   \<and> ostr (ASTSettingsProfileElement_formatImpl sample_externals
        (blank_element\<lparr>setting_name := ''readonly'', min_value := Some ''0'',
           max_value := Some ''1'', writability := Some CONST'\<rparr>) plain)
       = ''readonly MIN 0 MAX 1 CONST''
   \<and> ostr (ASTSettingsProfileElement_formatImpl sample_externals
        (blank_element\<lparr>setting_name := ''max_memory_usage'', value' := Some ''1000000''\<rparr>) plain)
       = ''max_memory_usage = 1000000''"
proof -
  let ?e = "blank_element\<lparr>setting_name := ''readonly'', min_value := Some ''0'',
       max_value := Some ''1'', writability := Some CONST'\<rparr>"
  let ?d = "blank_element\<lparr>setting_name := ''max_memory_usage'', value' := Some ''1000000''\<rparr>"
  have h: "parent_profile ?e = []" by (simp add: blank_element_def)
  have g: "parent_profile ?d = []" by (simp add: blank_element_def)
  show ?thesis
    using h C2_constraint_clause_order [OF h, of sample_externals plain]
      C2_constraint_clause_order [OF g, of sample_externals plain]
    by (simp add: keyword_simps sample_externals_def plain_def blank_element_def)
qed

text \<open>
  C5. For every constraint element whose writability is present and equal to the end marker
  \<^verbatim>\<open>MAX\<close>, \<^verbatim>\<open>formatImpl\<close> returns, and returns what it returns for the same element without a
  writability: the clause adds nothing, not even a space or a highlight marker, and the
  name, value and bounds are written as usual.
\<close>

theorem C5_sentinel_writability:
  "parent_profile e = [] \<Longrightarrow> writability e = Some MAX' \<Longrightarrow>
   ASTSettingsProfileElement_formatImpl X e settings
     = ASTSettingsProfileElement_formatImpl X (e\<lparr>writability := None\<rparr>) settings
   \<and> ostr (ASTSettingsProfileElement_formatImpl X e settings) =
       ostr settings @ formatSettingName X (setting_name e) @ value_clause X (value' e)
         @ bound_clause X (hilite settings) ''MIN'' (min_value e)
         @ bound_clause X (hilite settings) ''MAX'' (max_value e)"
  by (simp add: formatImpl_eq element_text_eq setting_constraint_text_def writability_clause_def)

text \<open>The theorem at an element with an upper bound and the end marker as writability.\<close>

theorem C5_sentinel_writability_witness:
  "parent_profile (blank_element\<lparr>setting_name := ''readonly'', max_value := Some ''1'',
       writability := Some MAX'\<rparr>) = []
   \<and> writability (blank_element\<lparr>setting_name := ''readonly'', max_value := Some ''1'',
       writability := Some MAX'\<rparr>) = Some MAX'
   \<and> ostr (ASTSettingsProfileElement_formatImpl sample_externals
        (blank_element\<lparr>setting_name := ''readonly'', max_value := Some ''1'',
           writability := Some MAX'\<rparr>) plain) = ''readonly MAX 1''"
proof -
  let ?e = "blank_element\<lparr>setting_name := ''readonly'', max_value := Some ''1'',
       writability := Some MAX'\<rparr>"
  have h: "parent_profile ?e = []" and g: "writability ?e = Some MAX'"
    by (simp_all add: blank_element_def)
  show ?thesis
    using h g C5_sentinel_writability [OF h g, of sample_externals plain, THEN conjunct2]
    by (simp add: value_clause_def bound_clause_def keyword_simps sample_externals_def plain_def
        blank_element_def)
qed

text \<open>
  C10. The branch of \<^verbatim>\<open>formatImpl\<close> is chosen by the emptiness of the string \<^verbatim>\<open>parent_profile\<close>
  alone: an element whose \<^verbatim>\<open>parent_profile\<close> is the empty string is written in the constraint
  form (the setting name, then the optional clauses), and the reference form is written
  only when the string is not empty. In the constraint branch the two fields that only the
  reference form reads, \<^verbatim>\<open>id_mode\<close> and \<^verbatim>\<open>use_inherit_keyword\<close>, have no effect.
\<close>

theorem C10_empty_parent_profile:
  "ostr (ASTSettingsProfileElement_formatImpl X e settings) =
     ostr settings @
       (if parent_profile e = [] then setting_constraint_text X (hilite settings) e
        else profile_reference_text X (hilite settings) e)
   \<and> (parent_profile e = [] \<longrightarrow>
        ASTSettingsProfileElement_formatImpl X (e\<lparr>id_mode := i, use_inherit_keyword := u\<rparr>) settings
          = ASTSettingsProfileElement_formatImpl X e settings)"
  by (simp add: ostr_formatImpl element_text_eq formatImpl_constraint_ignores)

text \<open>
  The theorem at an element with an empty \<^verbatim>\<open>parent_profile\<close> and both reference flags set.
\<close>

theorem C10_empty_parent_profile_witness:
  "ostr (ASTSettingsProfileElement_formatImpl sample_externals
      (blank_element\<lparr>parent_profile := [], setting_name := ''readonly'', value' := Some ''1'',
         id_mode := True, use_inherit_keyword := True\<rparr>) plain) = ''readonly = 1''
   \<and> ASTSettingsProfileElement_formatImpl sample_externals
      (blank_element\<lparr>parent_profile := [], setting_name := ''readonly'', value' := Some ''1'',
         id_mode := True, use_inherit_keyword := True\<rparr>) plain
     = ASTSettingsProfileElement_formatImpl sample_externals
      (blank_element\<lparr>parent_profile := [], setting_name := ''readonly'', value' := Some ''1''\<rparr>) plain"
proof -
  let ?e = "blank_element\<lparr>parent_profile := [], setting_name := ''readonly'', value' := Some ''1''\<rparr>"
  show ?thesis
    using C10_empty_parent_profile [of sample_externals
        "?e\<lparr>id_mode := True, use_inherit_keyword := True\<rparr>" plain False False]
    by (simp add: setting_constraint_text_def value_clause_def bound_clause_def
        writability_clause_def keyword_simps sample_externals_def plain_def blank_element_def)
qed

section \<open>The list of elements\<close>

lemma empty_loop_iff: "empty_loop X es \<longleftrightarrow> (\<forall>e\<in>set es. element_empty X e)"
  by (induction es) auto

lemma hilite_IAST_format: "hilite (IAST_format X e settings) = hilite settings"
  by (simp add: IAST_format_def hilite_formatImpl)

lemma ostr_IAST_format:
  "ostr (IAST_format X e settings) = ostr settings @ element_text X (hilite settings) e"
  by (simp add: IAST_format_def ostr_formatImpl)

lemma hilite_format_loop: "hilite (format_loop X need_comma es settings) = hilite settings"
  by (induction es arbitrary: need_comma settings)
    (simp_all add: Let_def hilite_IAST_format hilite_emit)

lemma ostr_format_loop:
  "ostr (format_loop X need_comma es settings) =
     ostr settings @
       (if es = [] then []
        else (if need_comma then '', '' else []) @
               join_with '', '' (map (element_text X (hilite settings)) es))"
proof (induction es arbitrary: need_comma settings)
  case Nil
  show ?case by simp
next
  case (Cons e es)
  show ?case
  proof (cases es)
    case Nil
    then show ?thesis
      by (simp add: Let_def ostr_IAST_format hilite_IAST_format ostr_emit hilite_emit)
  next
    case (Cons d ds)
    then show ?thesis
      using Cons.IH [of True]
      by (simp add: Let_def ostr_IAST_format hilite_IAST_format ostr_emit hilite_emit)
  qed
qed

lemma hilite_list_formatImpl:
  "hilite (ASTSettingsProfileElements_formatImpl X this settings) = hilite settings"
  by (simp add: ASTSettingsProfileElements_formatImpl_def hilite_emit hilite_format_loop)

lemma list_text_eq:
  "list_text X hl this =
     (if \<forall>e\<in>set (elements this). element_empty X e
      then keyword_on X hl @ ''NONE'' @ keyword_off X hl
      else join_with '', '' (map (element_text X hl) (elements this)))"
  by (auto simp add: list_text_def ASTSettingsProfileElements_formatImpl_def
      ASTSettingsProfileElements_empty_def empty_loop_iff ostr_emit hilite_emit
      ostr_format_loop keyword_on_def keyword_off_def)

lemma ostr_list_formatImpl:
  "ostr (ASTSettingsProfileElements_formatImpl X this settings) =
     ostr settings @ list_text X (hilite settings) this"
  unfolding list_text_eq
  by (auto simp add: ASTSettingsProfileElements_formatImpl_def
      ASTSettingsProfileElements_empty_def empty_loop_iff ostr_emit hilite_emit
      ostr_format_loop keyword_on_def keyword_off_def)

text \<open>
  C3. For every list in which each element satisfies its own \<^verbatim>\<open>empty()\<close>, the list with no
  element among them, \<^verbatim>\<open>ASTSettingsProfileElements::empty\<close> holds and the list formatter
  appends the keyword \<^verbatim>\<open>NONE\<close> (between the highlight markers when highlighting is on) and
  nothing more, whatever the length of the list.
\<close>

theorem C3_all_empty_is_NONE:
  "\<forall>e\<in>set (elements this). element_empty X e \<Longrightarrow>
   ASTSettingsProfileElements_empty X this
   \<and> ostr (ASTSettingsProfileElements_formatImpl X this settings) =
       ostr settings @ keyword_on X (hilite settings) @ ''NONE'' @ keyword_off X (hilite settings)"
  by (simp add: ostr_list_formatImpl list_text_eq ASTSettingsProfileElements_empty_def
      empty_loop_iff)

text \<open>The theorem at the list with no element and at a list of three empty elements.\<close>

theorem C3_all_empty_is_NONE_witness:
  "ostr (ASTSettingsProfileElements_formatImpl sample_externals \<lparr>elements = []\<rparr> plain) = ''NONE''
   \<and> ostr (ASTSettingsProfileElements_formatImpl sample_externals
        \<lparr>elements = [blank_element, blank_element\<lparr>max_value := Some ''1''\<rparr>, blank_element]\<rparr> plain)
       = ''NONE''"
proof -
  let ?l = "\<lparr>elements = [blank_element, blank_element\<lparr>max_value := Some ''1''\<rparr>, blank_element]\<rparr>"
  have h: "\<forall>e\<in>set (elements \<lparr>elements = []\<rparr>). element_empty sample_externals e" by simp
  have g: "\<forall>e\<in>set (elements ?l). element_empty sample_externals e"
    by (simp add: sample_externals_def blank_element_def)
  show ?thesis
    using C3_all_empty_is_NONE [OF h, of plain] C3_all_empty_is_NONE [OF g, of plain]
    by (simp add: keyword_simps plain_def)
qed

text \<open>
  C4. For every list with at least one element that is not empty, the list formatter appends
  the text of every element, in the order of the list and with the separator \<^verbatim>\<open>", "\<close>
  between consecutive elements, none before the first and none after the last. The elements
  that are empty on their own are written like the others.
\<close>

theorem C4_joined_elements:
  "\<exists>e\<in>set (elements this). \<not> element_empty X e \<Longrightarrow>
   ostr (ASTSettingsProfileElements_formatImpl X this settings) =
     ostr settings @ join_with '', '' (map (element_text X (hilite settings)) (elements this))"
  by (auto simp add: ostr_list_formatImpl list_text_eq)

text \<open>
  The theorem at a list of a value constraint, an empty element and a profile reference:
  the empty element is written as an empty text between two separators.
\<close>

theorem C4_joined_elements_witness:
  "ostr (ASTSettingsProfileElements_formatImpl sample_externals
      \<lparr>elements = [blank_element\<lparr>setting_name := ''max_memory_usage'', value' := Some ''1000000''\<rparr>,
                   blank_element,
                   blank_element\<lparr>parent_profile := ''default''\<rparr>]\<rparr> plain)
     = ''max_memory_usage = 1000000, , PROFILE `default`''"
proof -
  let ?l = "\<lparr>elements = [blank_element\<lparr>setting_name := ''max_memory_usage'', value' := Some ''1000000''\<rparr>,
                   blank_element,
                   blank_element\<lparr>parent_profile := ''default''\<rparr>]\<rparr>"
  have h: "\<exists>e\<in>set (elements ?l). \<not> element_empty sample_externals e"
    by (simp add: sample_externals_def blank_element_def)
  show ?thesis
    using C4_joined_elements [OF h, of plain]
    by (simp add: element_text_eq setting_constraint_text_def profile_reference_text_def
        value_clause_def bound_clause_def writability_clause_def name_or_id_text_eq
        keyword_simps sample_externals_def plain_def blank_element_def)
qed

section \<open>Setting the keyword flag\<close>

lemma setUseInheritKeyword_loop_map:
  "setUseInheritKeyword_loop b es = map (\<lambda>e. e\<lparr>use_inherit_keyword := b\<rparr>) es"
  by (induction es) simp_all

text \<open>
  C8. For every list and every boolean \<open>b\<close>, \<^verbatim>\<open>setUseInheritKeyword\<close> leaves the list with the
  same elements in the same order, each with \<^verbatim>\<open>use_inherit_keyword\<close> equal to \<open>b\<close> and every
  other field as before; a second call with the same boolean changes nothing.
\<close>

theorem C8_setUseInheritKeyword:
  "elements (ASTSettingsProfileElements_setUseInheritKeyword b this)
     = map (\<lambda>e. e\<lparr>use_inherit_keyword := b\<rparr>) (elements this)
   \<and> list_all (\<lambda>e. use_inherit_keyword e = b)
       (elements (ASTSettingsProfileElements_setUseInheritKeyword b this))
   \<and> ASTSettingsProfileElements_setUseInheritKeyword b
       (ASTSettingsProfileElements_setUseInheritKeyword b this)
     = ASTSettingsProfileElements_setUseInheritKeyword b this"
  by (simp add: ASTSettingsProfileElements_setUseInheritKeyword_def setUseInheritKeyword_loop_map
      list_all_iff)

section \<open>Two runs of the formatter\<close>

text \<open>
  C9. The text a formatting run appends is a function of the element (or the list) and of the
  highlighting switch alone: it does not depend on what the sink already holds, and the run
  leaves the switch as it was. Hence two runs in a row on the same input append the same
  bytes twice. The element and the list are read through \<^verbatim>\<open>const\<close> methods and are not
  written, which is why the functions return the settings only.
\<close>

theorem C9_two_runs:
  "ostr (ASTSettingsProfileElement_formatImpl X e settings)
     = ostr settings @ element_text X (hilite settings) e
   \<and> ostr (ASTSettingsProfileElement_formatImpl X e
        (ASTSettingsProfileElement_formatImpl X e settings))
     = ostr settings @ element_text X (hilite settings) e @ element_text X (hilite settings) e
   \<and> hilite (ASTSettingsProfileElement_formatImpl X e settings) = hilite settings
   \<and> ostr (ASTSettingsProfileElements_formatImpl X this settings)
     = ostr settings @ list_text X (hilite settings) this
   \<and> ostr (ASTSettingsProfileElements_formatImpl X this
        (ASTSettingsProfileElements_formatImpl X this settings))
     = ostr settings @ list_text X (hilite settings) this @ list_text X (hilite settings) this
   \<and> hilite (ASTSettingsProfileElements_formatImpl X this settings) = hilite settings"
  by (simp add: ostr_formatImpl hilite_formatImpl ostr_list_formatImpl hilite_list_formatImpl)

section \<open>Occurrences of the writability keyword\<close>

lemma prefix_cut:
  assumes "prefix k (a @ b)" and "set b \<inter> set k = {} \<or> (\<exists>c cs. b = c # cs \<and> c \<notin> set k)"
  shows "prefix k a"
proof -
  from assms(1) consider "prefix k a" | us where "k = a @ us" "prefix us b"
    by (auto simp add: prefix_append)
  then show ?thesis
  proof cases
    case 1
    then show ?thesis .
  next
    case 2
    show ?thesis
    proof (cases us)
      case Nil
      with 2 show ?thesis by simp
    next
      case (Cons u vs)
      with 2 obtain ws where "b = u # ws" by (cases b) auto
      moreover from 2 Cons have "u \<in> set k" by simp
      ultimately show ?thesis using assms(2) by auto
    qed
  qed
qed

lemma occurrences_none:
  "k \<noteq> [] \<Longrightarrow> set m \<inter> set k = {} \<Longrightarrow> occurrences k m = 0"
proof (induction m)
  case Nil
  then show ?case by simp
next
  case (Cons c cs)
  have "\<not> prefix k (c # cs)"
  proof
    assume "prefix k (c # cs)"
    then have "prefix k ([] @ (c # cs))" by simp
    then have "prefix k []" by (rule prefix_cut) (use Cons.prems(2) in auto)
    with Cons.prems(1) show False by simp
  qed
  with Cons show ?case by simp
qed

lemma occurrences_append_disjoint:
  "k \<noteq> [] \<Longrightarrow> set m \<inter> set k = {} \<Longrightarrow> occurrences k (a @ m) = occurrences k a"
proof (induction a)
  case Nil
  then show ?case by (simp add: occurrences_none)
next
  case (Cons x a)
  have "prefix k ((x # a) @ m) \<longleftrightarrow> prefix k (x # a)"
  proof
    assume "prefix k ((x # a) @ m)"
    then show "prefix k (x # a)" by (rule prefix_cut) (simp add: Cons.prems(2))
  next
    assume "prefix k (x # a)"
    then show "prefix k ((x # a) @ m)" by (rule prefix_prefix)
  qed
  with Cons show ?case by simp
qed

lemma occurrences_split:
  "k \<noteq> [] \<Longrightarrow> c \<notin> set k \<Longrightarrow> occurrences k (a @ c # b) = occurrences k a + occurrences k b"
proof (induction a)
  case Nil
  have "\<not> prefix k (c # b)"
  proof
    assume "prefix k (c # b)"
    then have "prefix k ([] @ (c # b))" by simp
    then have "prefix k []" by (rule prefix_cut) (simp add: Nil.prems(2))
    with Nil.prems(1) show False by simp
  qed
  with Nil show ?case by simp
next
  case (Cons x a)
  have "prefix k ((x # a) @ c # b) \<longleftrightarrow> prefix k (x # a)"
  proof
    assume "prefix k ((x # a) @ c # b)"
    then show "prefix k (x # a)" by (rule prefix_cut) (simp add: Cons.prems(2))
  next
    assume "prefix k (x # a)"
    then show "prefix k ((x # a) @ c # b)" by (rule prefix_prefix)
  qed
  with Cons show ?case by simp
qed

lemma occurrences_short:
  "length a < length k \<Longrightarrow> occurrences k a = 0"
proof (induction a)
  case Nil
  then show ?case by auto
next
  case (Cons x a)
  have "\<not> prefix k (x # a)"
    using Cons.prems prefix_length_le by fastforce
  with Cons show ?case by simp
qed

lemma occurrences_self_append:
  assumes "k \<noteq> []" and "set m \<inter> set k = {}"
  shows "occurrences k (k @ m) = 1"
proof -
  from assms(1) obtain c cs where k: "k = c # cs" by (cases k) auto
  have "occurrences k (cs @ m) = occurrences k cs"
    using assms by (rule occurrences_append_disjoint)
  also have "\<dots> = 0" by (rule occurrences_short) (simp add: k)
  finally have "occurrences k (cs @ m) = 0" .
  moreover have "prefix k (c # cs @ m)" by (simp add: k)
  ultimately have "occurrences k (c # cs @ m) = 1" by simp
  then show ?thesis by (simp add: k)
qed

lemma occurrences_keyword_clause:
  assumes "k \<noteq> []" and "CHR '' '' \<notin> set k"
    and "set on \<inter> set k = {}" and "set off \<inter> set k = {}"
  shows "occurrences k (p @ on @ CHR '' '' # k @ off) = Suc (occurrences k p)"
proof -
  have "occurrences k ((p @ on) @ CHR '' '' # (k @ off))
          = occurrences k (p @ on) + occurrences k (k @ off)"
    using assms(1,2) by (rule occurrences_split)
  also have "occurrences k (p @ on) = occurrences k p"
    using assms(1,3) by (rule occurrences_append_disjoint)
  also have "occurrences k (k @ off) = 1"
    using assms(1,4) by (rule occurrences_self_append)
  finally show ?thesis by simp
qed

lemma writability_keyword_shape:
  "w \<noteq> MAX' \<Longrightarrow> writability_keyword w \<noteq> [] \<and> CHR '' '' \<notin> set (writability_keyword w)"
  by (cases w) simp_all

lemma element_text_writability:
  "parent_profile e = [] \<Longrightarrow> writability e = Some w \<Longrightarrow> w \<noteq> MAX' \<Longrightarrow>
   element_text X hl e =
     element_text X hl (e\<lparr>writability := None\<rparr>) @ keyword_on X hl @ '' ''
       @ writability_keyword w @ keyword_off X hl"
  by (simp add: element_text_eq setting_constraint_text_def writability_clause_def)

text \<open>
  C7. For every constraint element whose writability is present and is not the end marker,
  the text of the element is the text of the same element without the writability, followed
  by one space and the keyword of the mode (\<^verbatim>\<open>WRITABLE\<close>, \<^verbatim>\<open>CONST\<close> or
  \<^verbatim>\<open>CHANGEABLE_IN_READONLY\<close>), the two between the highlight markers when highlighting is on.
  When the highlight markers in use share no character with the keyword (as when
  highlighting is off), the keyword occurs in the text exactly one more time than in the
  text of the name, value and bounds: exactly once when these do not hold it.
\<close>

theorem C7_writability_keyword:
  "parent_profile e = [] \<Longrightarrow> writability e = Some w \<Longrightarrow> w \<noteq> MAX' \<Longrightarrow>
   element_text X hl e =
     element_text X hl (e\<lparr>writability := None\<rparr>) @ keyword_on X hl @ '' ''
       @ writability_keyword w @ keyword_off X hl
   \<and> (set (keyword_on X hl) \<inter> set (writability_keyword w) = {}
        \<and> set (keyword_off X hl) \<inter> set (writability_keyword w) = {} \<longrightarrow>
      occurrences (writability_keyword w) (element_text X hl e)
        = Suc (occurrences (writability_keyword w) (element_text X hl (e\<lparr>writability := None\<rparr>))))"
  using writability_keyword_shape [of w]
  by (auto simp add: element_text_writability occurrences_keyword_clause)

text \<open>The theorem at an element with two bounds and the mode \<^verbatim>\<open>CONST\<close>.\<close>

theorem C7_writability_keyword_witness:
  "element_text sample_externals False
     (blank_element\<lparr>setting_name := ''readonly'', min_value := Some ''0'', max_value := Some ''1'',
        writability := Some CONST'\<rparr>) = ''readonly MIN 0 MAX 1'' @ '' '' @ ''CONST''
   \<and> occurrences ''CONST'' (element_text sample_externals False
       (blank_element\<lparr>setting_name := ''readonly'', min_value := Some ''0'', max_value := Some ''1'',
          writability := Some CONST'\<rparr>)) = 1"
proof -
  let ?e = "blank_element\<lparr>setting_name := ''readonly'', min_value := Some ''0'',
       max_value := Some ''1'', writability := Some CONST'\<rparr>"
  have h: "parent_profile ?e = []" and g: "writability ?e = Some CONST'"
    by (simp_all add: blank_element_def)
  have n: "CONST' \<noteq> MAX'" by simp
  have r: "element_text sample_externals False (?e\<lparr>writability := None\<rparr>) = ''readonly MIN 0 MAX 1''"
    by (simp add: element_text_eq setting_constraint_text_def value_clause_def bound_clause_def
        writability_clause_def keyword_simps sample_externals_def blank_element_def)
  show ?thesis
    using C7_writability_keyword [OF h g n, of sample_externals False] r
    by (simp add: keyword_simps)
qed

text \<open>
  The keyword can occur more than once: a setting whose name holds the word \<^verbatim>\<open>CONST\<close>, with
  the mode \<^verbatim>\<open>CONST\<close> and a name formatter that writes the name as it is, gives a text with two
  occurrences, the first of them after an underscore.
\<close>

theorem C7_counterexample:
  "parent_profile (blank_element\<lparr>setting_name := ''custom_CONST'', writability := Some CONST'\<rparr>) = []
   \<and> writability (blank_element\<lparr>setting_name := ''custom_CONST'', writability := Some CONST'\<rparr>)
       = Some CONST'
   \<and> element_text sample_externals False
       (blank_element\<lparr>setting_name := ''custom_CONST'', writability := Some CONST'\<rparr>)
       = ''custom_CONST CONST''
   \<and> occurrences ''CONST'' (element_text sample_externals False
       (blank_element\<lparr>setting_name := ''custom_CONST'', writability := Some CONST'\<rparr>)) = 2"
  by (simp add: element_text_eq setting_constraint_text_def value_clause_def bound_clause_def
      writability_clause_def keyword_simps sample_externals_def blank_element_def)

end
